theory Spec2Isabelle
  imports Main "HOL-Library.Word"
begin

section \<open>Bytes, failures and Go slices\<close>

type_synonym byte = "8 word"

text \<open>
  A Go call ends in one of three ways: it returns its value, it returns a non-nil
  \<open>error\<close> (here \<open>Err\<close> with the message), or it panics at run time. The two run-time
  panics that \<open>key.go\<close> can reach are an index out of range (\<open>p[i]\<close>) and slice bounds
  out of range (\<open>p[i:]\<close>). A result is \<open>failure + 'a\<close>, \<open>Inl\<close> the failure.
\<close>

datatype failure = Err string | PanicIndexOutOfRange | PanicSliceBounds

definition index_go :: "'a list \<Rightarrow> nat \<Rightarrow> failure + 'a" where
  \<comment> \<open>\<open>p[i]\<close> read\<close>
  "index_go p i = (if i < length p then Inr (p ! i) else Inl PanicIndexOutOfRange)"

definition store_go :: "'a list \<Rightarrow> nat \<Rightarrow> 'a \<Rightarrow> failure + 'a list" where
  \<comment> \<open>\<open>p[i] = v\<close>\<close>
  "store_go p i v = (if i < length p then Inr (p[i := v]) else Inl PanicIndexOutOfRange)"

definition slice_from :: "'a list \<Rightarrow> nat \<Rightarrow> failure + 'a list" where
  \<comment> \<open>\<open>p[i:]\<close>\<close>
  "slice_from p i = (if i \<le> length p then Inr (drop i p) else Inl PanicSliceBounds)"

definition copy_go :: "'a list \<Rightarrow> 'a list \<Rightarrow> 'a list" where
  \<comment> \<open>\<open>copy(dst, src)\<close>: the first \<open>min(len(dst), len(src))\<close> elements of \<open>dst\<close> are
      overwritten; the result is the new content of \<open>dst\<close>\<close>
  "copy_go dst src = (let n = min (length dst) (length src) in take n src @ drop n dst)"

definition copy_shift :: "'a list \<Rightarrow> failure + 'a list" where
  \<comment> \<open>\<open>copy(p[1:], p[:len(p)-1])\<close> as an update of \<open>p\<close>: source and destination
      overlap, and Go's \<open>copy\<close> reads the source as it was before the call. Either slice
      expression panics on the empty \<open>p\<close>.\<close>
  "copy_shift p =
     (if length p < 1 then Inl PanicSliceBounds
      else Inr (take 1 p @ copy_go (drop 1 p) (take (length p - 1) p)))"

section \<open>Library types: \<open>math/big\<close>, \<open>hash.Hash\<close>, \<open>btcec\<close>\<close>

text \<open>\<open>big.Int.SetBytes\<close> reads a big-endian unsigned integer of any length.\<close>

definition SetBytes :: "byte list \<Rightarrow> nat" where
  "SetBytes bs = foldl (\<lambda>a b. a * 256 + unat b) 0 bs"

text \<open>\<open>big.Int.Bytes\<close> is the shortest big-endian form; zero is the empty slice.\<close>

function bytes_le :: "nat \<Rightarrow> byte list" where
  "bytes_le n = (if n = 0 then [] else of_nat (n mod 256) # bytes_le (n div 256))"
  by pat_completeness auto
termination
  by (relation "measure id") auto

declare bytes_le.simps [simp del]

definition Bytes :: "nat \<Rightarrow> byte list" where
  "Bytes n = rev (bytes_le n)"

text \<open>
  A \<open>hash.Hash\<close> accumulates what is written to it; \<open>Write\<close> never returns an error
  (so the \<open>log.Fatal\<close> branches of \<open>key.go\<close> are dead), and \<open>Sum(b)\<close> appends the digest
  of everything written to \<open>b\<close>. The digest function itself is a parameter.
\<close>

type_synonym hash_state = "byte list"

definition hash_New :: hash_state where
  "hash_New = []"

definition hash_Write :: "hash_state \<Rightarrow> byte list \<Rightarrow> hash_state" where
  "hash_Write h p = h @ p"

definition hash_Sum :: "(byte list \<Rightarrow> byte list) \<Rightarrow> hash_state \<Rightarrow> byte list \<Rightarrow> byte list" where
  "hash_Sum digest h b = b @ digest h"

text \<open>
  The collaborators that \<open>key.go\<close> imports and that stay opaque: the base58 codec of
  package \<open>arkcoin/base58\<close>, the two digests, and the curve \<open>btcec.S256()\<close> with points
  of type \<open>'pt\<close>. \<open>ScalarBaseMult k\<close> is \<open>k * G\<close> for the base point \<open>G\<close>.
\<close>

record 'pt collaborators =
  base58_Encode :: "byte list \<Rightarrow> string"
  base58_Decode :: "string \<Rightarrow> failure + byte list"
  sha256_digest :: "byte list \<Rightarrow> byte list"
  ripemd160_digest :: "byte list \<Rightarrow> byte list"
  ScalarBaseMult :: "nat \<Rightarrow> 'pt"
  SerializeCompressed :: "'pt \<Rightarrow> byte list"
  SerializeUncompressed :: "'pt \<Rightarrow> byte list"

definition PrivKeyBytesLen :: nat where
  "PrivKeyBytesLen = 32"

text \<open>
  \<open>btcec.PrivateKey\<close> is \<open>ecdsa.PrivateKey\<close>: the scalar \<open>D\<close> and, embedded, the public
  point. \<open>btcec.PrivKeyFromBytes\<close> sets \<open>D\<close> to the big-endian value of the bytes and the
  point to \<open>ScalarBaseMult\<close> of them, with no validation of either; it returns the key
  and a pointer to its embedded public key.
\<close>

record 'pt ecdsa_PrivateKey =
  ecdsa_D :: nat
  ecdsa_PublicKey :: 'pt

definition PrivKeyFromBytes ::
  "'pt collaborators \<Rightarrow> byte list \<Rightarrow> 'pt ecdsa_PrivateKey \<times> 'pt" where
  "PrivKeyFromBytes c pk =
     (let priv = \<lparr>ecdsa_D = SetBytes pk, ecdsa_PublicKey = ScalarBaseMult c (SetBytes pk)\<rparr>
      in (priv, ecdsa_PublicKey priv))"

definition paddedAppend :: "nat \<Rightarrow> byte list \<Rightarrow> byte list \<Rightarrow> byte list" where
  \<comment> \<open>appends \<open>src\<close> to \<open>dst\<close> after \<open>sz - len(src)\<close> zero bytes (none when \<open>src\<close> is longer)\<close>
  "paddedAppend sz dst src = dst @ replicate (sz - length src) 0 @ src"

definition btcec_Serialize :: "'pt ecdsa_PrivateKey \<Rightarrow> byte list" where
  \<comment> \<open>\<open>(*btcec.PrivateKey).Serialize\<close>\<close>
  "btcec_Serialize p = paddedAppend PrivKeyBytesLen [] (Bytes (ecdsa_D p))"


section \<open>The data model of \<open>key.go\<close>\<close>

record Params =
  DumpedPrivateKeyHeader :: "byte list"
  AddressHeader :: byte
  P2SHHeader :: byte
  HDPrivateKeyID :: "byte list"
  HDPublicKeyID :: "byte list"

text \<open>
  \<open>PublicKey\<close> embeds \<open>*btcec.PublicKey\<close> (the point), \<open>PrivateKey\<close> embeds
  \<open>*btcec.PrivateKey\<close>. Pointers are taken to be non-nil and are modelled by value:
  no function of the file writes through one.
\<close>

record 'pt PublicKey =
  btcec_PublicKey :: 'pt
  isCompressed :: bool
  param :: Params

record 'pt PrivateKey =
  btcec_PrivateKey :: "'pt ecdsa_PrivateKey"
  PublicKey :: "'pt PublicKey"

section \<open>Construction and import\<close>

text \<open>
  The loop \<open>for _, h := range param.DumpedPrivateKeyHeader { if pb[0] == h { ok = true } }\<close>
  of \<open>FromWIF\<close>: \<open>pb[0]\<close> is read once per header, before any check of \<open>len(pb)\<close>.
\<close>

fun header_loop :: "byte list \<Rightarrow> byte list \<Rightarrow> bool \<Rightarrow> failure + bool" where
  "header_loop pb [] ok = Inr ok"
| "header_loop pb (h # hs) ok =
     (case index_go pb 0 of
        Inl e \<Rightarrow> Inl e
      | Inr b \<Rightarrow> header_loop pb hs (if b = h then True else ok))"

definition FromWIF ::
  "'pt collaborators \<Rightarrow> string \<Rightarrow> Params \<Rightarrow> failure + 'pt PrivateKey" where
  "FromWIF c wif prm =
     (case base58_Decode c wif of
        Inl err \<Rightarrow> Inl err
      | Inr pb \<Rightarrow>
          (case header_loop pb (DumpedPrivateKeyHeader prm) False of
             Inl e \<Rightarrow> Inl e
           | Inr ok \<Rightarrow>
               if \<not> ok then Inl (Err ''wif is invalid'')
               else
                 let (pb, compressed) =
                       (if length pb = PrivKeyBytesLen + 2 \<and> pb ! (PrivKeyBytesLen + 1) = 1
                        then (take (length pb - 1) pb, True)
                        else (pb, False))
                 in (case slice_from pb 1 of
                       Inl e \<Rightarrow> Inl e
                     | Inr sk \<Rightarrow>
                         let (priv, pub) = PrivKeyFromBytes c sk
                         in Inr \<lparr>btcec_PrivateKey = priv,
                                 PublicKey = \<lparr>btcec_PublicKey = pub,
                                              isCompressed = compressed,
                                              param = prm\<rparr>\<rparr>)))"

definition NewPrivateKey :: "'pt collaborators \<Rightarrow> byte list \<Rightarrow> Params \<Rightarrow> 'pt PrivateKey" where
  "NewPrivateKey c pb prm =
     (let (priv, pub) = PrivKeyFromBytes c pb
      in \<lparr>btcec_PrivateKey = priv,
          PublicKey = \<lparr>btcec_PublicKey = pub, isCompressed = True, param = prm\<rparr>\<rparr>)"

text \<open>A Go string is a byte sequence, as an Isabelle \<open>string\<close> is; \<open>[]byte(password)\<close>:\<close>

definition bytes_of_string :: "string \<Rightarrow> byte list" where
  "bytes_of_string s = map of_char s"

definition NewPrivateKeyFromPassword ::
  "'pt collaborators \<Rightarrow> string \<Rightarrow> Params \<Rightarrow> 'pt PrivateKey" where
  "NewPrivateKeyFromPassword c password prm =
     (let h = hash_New;
          h = hash_Write h (bytes_of_string password);
          pb = hash_Sum (sha256_digest c) h []
      in NewPrivateKey c pb prm)"


section \<open>Export and addresses\<close>

text \<open>
  \<open>Sign\<close>, \<open>Verify\<close> and \<open>NewPublicKey\<close> hand their arguments to \<open>btcec\<close> and return
  what it returns; they read the key and write nothing, and are not needed below.
  \<open>log.Println\<close> in \<open>FromWIF\<close> is left out.
\<close>

definition WIFAddress :: "'pt collaborators \<Rightarrow> 'pt PrivateKey \<Rightarrow> failure + string" where
  "WIFAddress c priv =
     (let p = btcec_Serialize (btcec_PrivateKey priv);
          p = (if isCompressed (PublicKey priv) then p @ [1] else p);
          p = p @ [0]
      in (case copy_shift p of
            Inl e \<Rightarrow> Inl e
          | Inr p \<Rightarrow>
              (case index_go (DumpedPrivateKeyHeader (param (PublicKey priv))) 0 of
                 Inl e \<Rightarrow> Inl e
               | Inr h \<Rightarrow>
                   (case store_go p 0 h of
                      Inl e \<Rightarrow> Inl e
                    | Inr p \<Rightarrow> Inr (base58_Encode c p)))))"

definition Serialize :: "'pt collaborators \<Rightarrow> 'pt PublicKey \<Rightarrow> byte list" where
  "Serialize c pub =
     (if isCompressed pub then SerializeCompressed c (btcec_PublicKey pub)
      else SerializeUncompressed c (btcec_PublicKey pub))"

definition PublicKey_AddressBytes :: "'pt collaborators \<Rightarrow> 'pt PublicKey \<Rightarrow> byte list" where
  \<comment> \<open>the method \<open>(pub *PublicKey) AddressBytes\<close>\<close>
  "PublicKey_AddressBytes c pub =
     (let shadPublicKeyBytes = Serialize c pub;
          ripeHash = hash_New;
          ripeHash = hash_Write ripeHash shadPublicKeyBytes
      in hash_Sum (ripemd160_digest c) ripeHash [])"

definition PublicKey_Address :: "'pt collaborators \<Rightarrow> 'pt PublicKey \<Rightarrow> failure + string" where
  \<comment> \<open>the method \<open>(pub *PublicKey) Address\<close>\<close>
  "PublicKey_Address c pub =
     (let ripeHashedBytes = PublicKey_AddressBytes c pub;
          ripeHashedBytes = ripeHashedBytes @ [0]
      in (case copy_shift ripeHashedBytes of
            Inl e \<Rightarrow> Inl e
          | Inr ripeHashedBytes \<Rightarrow>
              (case store_go ripeHashedBytes 0 (AddressHeader (param pub)) of
                 Inl e \<Rightarrow> Inl e
               | Inr ripeHashedBytes \<Rightarrow> Inr (base58_Encode c ripeHashedBytes))))"

definition DecodeAddress :: "'pt collaborators \<Rightarrow> string \<Rightarrow> failure + byte list" where
  "DecodeAddress c addr =
     (case base58_Decode c addr of
        Inl err \<Rightarrow> Inl err
      | Inr pb \<Rightarrow> slice_from pb 1)"

definition AddressBytes :: "'pt collaborators \<Rightarrow> byte list \<Rightarrow> byte list" where
  \<comment> \<open>the function \<open>AddressBytes(redeem)\<close>\<close>
  "AddressBytes c redeem =
     (let h = redeem;
          ripeHash = hash_New;
          ripeHash = hash_Write ripeHash h
      in hash_Sum (ripemd160_digest c) ripeHash [])"

definition Address :: "'pt collaborators \<Rightarrow> byte list \<Rightarrow> byte \<Rightarrow> failure + string" where
  \<comment> \<open>the function \<open>Address(redeem, header)\<close>\<close>
  "Address c redeem header =
     (let ripeHashedBytes = AddressBytes c redeem;
          ripeHashedBytes = ripeHashedBytes @ [0]
      in (case copy_shift ripeHashedBytes of
            Inl e \<Rightarrow> Inl e
          | Inr ripeHashedBytes \<Rightarrow>
              (case store_go ripeHashedBytes 0 header of
                 Inl e \<Rightarrow> Inl e
               | Inr ripeHashedBytes \<Rightarrow> Inr (base58_Encode c ripeHashedBytes))))"

section \<open>What can be done to a key once it is built\<close>




section \<open>Properties named by the spec\<close>

definition secp256k1_N :: nat where
  \<comment> \<open>the order of the curve's group\<close>
  "secp256k1_N = 0xFFFFFFFFFFFFFFFFFFFFFFFFFFFFFFFEBAAEDCE6AF48A03BBFD25E8CD0364141"

definition valid_scalar :: "nat \<Rightarrow> bool" where
  "valid_scalar d = (0 < d \<and> d < secp256k1_N)"


section \<open>The base58 codec as the spec describes it\<close>

definition b58_alphabet :: string where
  "b58_alphabet = ''123456789ABCDEFGHJKLMNPQRSTUVWXYZabcdefghijkmnopqrstuvwxyz''"

function digits58_le :: "nat \<Rightarrow> nat list" where
  "digits58_le n = (if n = 0 then [] else n mod 58 # digits58_le (n div 58))"
  by pat_completeness auto
termination
  by (relation "measure id") auto

declare digits58_le.simps [simp del]

fun b58_index :: "string \<Rightarrow> char \<Rightarrow> nat" where
  "b58_index [] ch = 0"
| "b58_index (a # as) ch = (if a = ch then 0 else Suc (b58_index as ch))"

definition spec_base58_Encode :: "byte list \<Rightarrow> string" where
  \<comment> \<open>Modelled from the spec: package \<open>arkcoin/base58\<close> is not among the sources. The
      spec's codec has no checksum: the bytes are read as one big-endian number written
      in base 58 over the alphabet, and each leading \<open>0x00\<close> byte gives one leading
      \<open>1\<close>.\<close>
  "spec_base58_Encode b =
     replicate (length (takeWhile (\<lambda>x. x = 0) b)) (CHR ''1'')
     @ map (\<lambda>d. b58_alphabet ! d) (rev (digits58_le (SetBytes b)))"

definition spec_base58_Decode :: "string \<Rightarrow> failure + byte list" where
  \<comment> \<open>Modelled from the spec: the inverse of the above; it fails with
      \<open>InvalidBase58Character\<close> on a character outside the alphabet.\<close>
  "spec_base58_Decode s =
     (if list_ex (\<lambda>ch. ch \<notin> set b58_alphabet) s
      then Inl (Err ''InvalidBase58Character'')
      else Inr (replicate (length (takeWhile (\<lambda>ch. ch = CHR ''1'') s)) 0
                @ Bytes (foldl (\<lambda>a ch. a * 58 + b58_index b58_alphabet ch) 0 s)))"

text \<open>
  An instance of the collaborators on which the functions can be evaluated: the codec
  above; the additive group of integers modulo \<open>secp256k1_N\<close> with generator 1 for the
  curve's group (both are cyclic of that order), a point written as a prefix byte and
  its 32 bytes; and fixed-length stand-ins for the two digests.
\<close>

definition test_collaborators :: "nat collaborators" where
  "test_collaborators =
     \<lparr>base58_Encode = spec_base58_Encode,
      base58_Decode = spec_base58_Decode,
      sha256_digest = (\<lambda>b. take 32 (b @ replicate 32 0)),
      ripemd160_digest = (\<lambda>b. take 20 (b @ replicate 20 0)),
      ScalarBaseMult = (\<lambda>k. k mod secp256k1_N),
      SerializeCompressed = (\<lambda>p. 2 # paddedAppend 32 [] (Bytes p)),
      SerializeUncompressed =
        (\<lambda>p. 4 # paddedAppend 32 [] (Bytes p) @ paddedAppend 32 [] (Bytes p))\<rparr>"

definition test_params :: Params where
  \<comment> \<open>a parameter set to evaluate on: WIF header \<open>0xAA\<close>, address header \<open>0x17\<close>\<close>
  "test_params =
     \<lparr>DumpedPrivateKeyHeader = [0xAA], AddressHeader = 0x17, P2SHHeader = 0x00,
      HDPrivateKeyID = [0x46, 0x08, 0x95, 0x20], HDPublicKeyID = [0x46, 0x09, 0x06, 0x00]\<rparr>"

definition bytes_all_FF :: "byte list" where
  "bytes_all_FF =
     [0xFF, 0xFF, 0xFF, 0xFF, 0xFF, 0xFF, 0xFF, 0xFF, 0xFF, 0xFF, 0xFF, 0xFF, 0xFF, 0xFF, 0xFF, 0xFF,
      0xFF, 0xFF, 0xFF, 0xFF, 0xFF, 0xFF, 0xFF, 0xFF, 0xFF, 0xFF, 0xFF, 0xFF, 0xFF, 0xFF, 0xFF, 0xFF]"

section \<open>Lemmas about the slice operations and the number conversions\<close>

lemma copy_shift_snoc:
  "copy_shift (p @ [z]) = Inr ((if p = [] then z else hd p) # p)"
  by (cases p) (simp_all add: copy_shift_def copy_go_def)

lemma header_step:
  "(case copy_shift (p @ [z]) of
      Inl e \<Rightarrow> Inl e
    | Inr q \<Rightarrow> (case store_go q 0 h of Inl e \<Rightarrow> Inl e | Inr q \<Rightarrow> f q))
   = f (h # p)"
  by (simp add: copy_shift_snoc store_go_def)

lemma index_go_0: "index_go xs 0 = (case xs of [] \<Rightarrow> Inl PanicIndexOutOfRange | x # _ \<Rightarrow> Inr x)"
  by (cases xs) (simp_all add: index_go_def)

lemma WIFAddress_eq:
  "DumpedPrivateKeyHeader (param (PublicKey priv)) = h # hs \<Longrightarrow>
   WIFAddress c priv =
     Inr (base58_Encode c (h # btcec_Serialize (btcec_PrivateKey priv)
                              @ (if isCompressed (PublicKey priv) then [1] else [])))"
  by (simp add: WIFAddress_def Let_def index_go_0 copy_shift_snoc store_go_def)

lemma WIFAddress_no_header:
  "DumpedPrivateKeyHeader (param (PublicKey priv)) = [] \<Longrightarrow>
   WIFAddress c priv = Inl PanicIndexOutOfRange"
  by (simp add: WIFAddress_def Let_def index_go_0 copy_shift_snoc store_go_def)

lemma PublicKey_Address_eq:
  "PublicKey_Address c pub =
     Inr (base58_Encode c (AddressHeader (param pub) # PublicKey_AddressBytes c pub))"
  by (simp add: PublicKey_Address_def Let_def header_step)

lemma Address_eq:
  "Address c redeem header = Inr (base58_Encode c (header # AddressBytes c redeem))"
  by (simp add: Address_def Let_def header_step)

lemma foldl_SetBytes:
  "foldl (\<lambda>a b. a * 256 + unat (b::byte)) a bs = a * 256 ^ length bs + SetBytes bs"
proof (induction bs arbitrary: a)
  case Nil
  show ?case by (simp add: SetBytes_def)
next
  case (Cons b bs)
  have "foldl (\<lambda>a b. a * 256 + unat b) a (b # bs)
        = (a * 256 + unat b) * 256 ^ length bs + SetBytes bs"
    using Cons.IH [of "a * 256 + unat b"] by simp
  moreover have "SetBytes (b # bs) = unat b * 256 ^ length bs + SetBytes bs"
    using Cons.IH [of "unat b"] by (simp add: SetBytes_def)
  ultimately show ?case by (simp add: algebra_simps)
qed

lemma SetBytes_append:
  "SetBytes (xs @ ys) = SetBytes xs * 256 ^ length ys + SetBytes ys"
  using foldl_SetBytes [of "SetBytes xs" ys] by (simp add: SetBytes_def)

lemma SetBytes_replicate_0: "SetBytes (replicate m 0) = 0"
  by (induction m) (simp_all add: SetBytes_def)

lemma SetBytes_padded: "SetBytes (replicate m 0 @ bs) = SetBytes bs"
  by (simp add: SetBytes_append SetBytes_replicate_0)

lemma SetBytes_Bytes: "SetBytes (Bytes n) = n"
proof (induction n rule: bytes_le.induct)
  case (1 n)
  show ?case
  proof (cases "n = 0")
    case True
    then show ?thesis by (simp add: Bytes_def bytes_le.simps SetBytes_def)
  next
    case False
    have "Bytes n = Bytes (n div 256) @ [of_nat (n mod 256)]"
      using False by (subst Bytes_def, subst bytes_le.simps) (simp add: Bytes_def)
    moreover have "unat (of_nat (n mod 256) :: byte) = n mod 256"
      by (simp add: unat_of_nat)
    ultimately show ?thesis
      using 1 [OF False] by (simp add: SetBytes_append SetBytes_def)
  qed
qed

lemma length_bytes_le: "n < 256 ^ k \<Longrightarrow> length (bytes_le n) \<le> k"
proof (induction k arbitrary: n)
  case 0
  then show ?case by (simp add: bytes_le.simps)
next
  case (Suc k)
  show ?case
  proof (cases "n = 0")
    case True
    then show ?thesis by (simp add: bytes_le.simps)
  next
    case False
    from Suc.prems have "n div 256 < 256 ^ k"
      by (simp add: less_mult_imp_div_less mult.commute)
    from Suc.IH [OF this] False show ?thesis
      by (subst bytes_le.simps) simp
  qed
qed

lemma secp256k1_N_less: "secp256k1_N < 256 ^ 32"
  by (simp add: secp256k1_N_def)

lemma btcec_Serialize_length:
  "ecdsa_D p < 256 ^ 32 \<Longrightarrow> length (btcec_Serialize p) = 32"
  using length_bytes_le [of "ecdsa_D p" 32]
  by (simp add: btcec_Serialize_def paddedAppend_def PrivKeyBytesLen_def Bytes_def)

lemma SetBytes_btcec_Serialize: "SetBytes (btcec_Serialize p) = ecdsa_D p"
  by (simp add: btcec_Serialize_def paddedAppend_def SetBytes_padded SetBytes_Bytes)

lemma header_loop_Cons:
  "header_loop (b # bs) hs ok = Inr (ok \<or> b \<in> set hs)"
  by (induction hs arbitrary: ok) (auto simp: index_go_def)

lemma header_loop_Nil:
  "header_loop [] hs ok = (if hs = [] then Inr ok else Inl PanicIndexOutOfRange)"
  by (cases hs) (simp_all add: index_go_def)


lemma FromWIF_decoded:
  assumes "base58_Decode c wif = Inr (b # bs)"
  shows "FromWIF c wif prm =
     (if b \<in> set (DumpedPrivateKeyHeader prm)
      then (let (sk, compressed) =
                  (if length bs = 33 \<and> bs ! 32 = 1 then (take 32 bs, True) else (bs, False))
            in Inr \<lparr>btcec_PrivateKey =
                      \<lparr>ecdsa_D = SetBytes sk, ecdsa_PublicKey = ScalarBaseMult c (SetBytes sk)\<rparr>,
                    PublicKey =
                      \<lparr>btcec_PublicKey = ScalarBaseMult c (SetBytes sk),
                       isCompressed = compressed, param = prm\<rparr>\<rparr>)
      else Inl (Err ''wif is invalid''))"
  using assms
  by (simp add: FromWIF_def header_loop_Cons PrivKeyBytesLen_def slice_from_def
      PrivKeyFromBytes_def Let_def)

lemma FromWIF_decoded_empty:
  assumes "base58_Decode c wif = Inr []"
  shows "FromWIF c wif prm =
     (if DumpedPrivateKeyHeader prm = [] then Inl (Err ''wif is invalid'')
      else Inl PanicIndexOutOfRange)"
  using assms by (simp add: FromWIF_def header_loop_Nil)

lemma DecodeAddress_decoded:
  "base58_Decode c addr = Inr pb \<Longrightarrow>
   DecodeAddress c addr = (if pb = [] then Inl PanicSliceBounds else Inr (tl pb))"
  by (cases pb) (simp_all add: DecodeAddress_def slice_from_def)

section \<open>The codec of the spec is reversible\<close>

lemma length_b58_alphabet: "length b58_alphabet = 58"
  by (simp add: b58_alphabet_def)

lemma distinct_b58_alphabet: "distinct b58_alphabet"
  by (simp add: b58_alphabet_def)

lemma b58_alphabet_0: "b58_alphabet ! 0 = CHR ''1''"
  by (simp add: b58_alphabet_def)

lemma b58_index_nth:
  "distinct xs \<Longrightarrow> i < length xs \<Longrightarrow> b58_index xs (xs ! i) = i"
proof (induction xs arbitrary: i)
  case Nil
  then show ?case by simp
next
  case (Cons a xs)
  show ?case
  proof (cases i)
    case 0
    then show ?thesis by simp
  next
    case (Suc j)
    with Cons.prems have "xs ! j \<in> set xs" "a \<notin> set xs" by simp_all
    then have "a \<noteq> xs ! j" by blast
    with Suc Cons show ?thesis by simp
  qed
qed

lemma digits58_le_bound: "d \<in> set (digits58_le n) \<Longrightarrow> d < 58"
proof (induction n rule: digits58_le.induct)
  case (1 n)
  show ?case
  proof (cases "n = 0")
    case True
    with 1 show ?thesis by (simp add: digits58_le.simps)
  next
    case False
    from "1.prems" False have "d = n mod 58 \<or> d \<in> set (digits58_le (n div 58))"
      by (subst (asm) digits58_le.simps) simp
    with "1.IH" [OF False] show ?thesis by auto
  qed
qed

lemma digits58_le_value:
  "foldl (\<lambda>a d. a * 58 + d) 0 (rev (digits58_le n)) = n"
proof (induction n rule: digits58_le.induct)
  case (1 n)
  show ?case
  proof (cases "n = 0")
    case True
    then show ?thesis by (simp add: digits58_le.simps)
  next
    case False
    then have "digits58_le n = n mod 58 # digits58_le (n div 58)"
      by (subst digits58_le.simps) simp
    with 1 [OF False] show ?thesis by simp
  qed
qed

lemma digits58_le_last: "n \<noteq> 0 \<Longrightarrow> last (digits58_le n) \<noteq> 0"
proof (induction n rule: digits58_le.induct)
  case (1 n)
  have unfold: "digits58_le n = n mod 58 # digits58_le (n div 58)"
    using "1.prems" by (subst digits58_le.simps) simp
  show ?case
  proof (cases "n div 58 = 0")
    case True
    then have "digits58_le (n div 58) = []" by (simp add: digits58_le.simps)
    moreover from True have "n < 58" by simp
    then have "n mod 58 = n" by simp
    with "1.prems" have "n mod 58 \<noteq> 0" by simp
    ultimately show ?thesis using unfold by simp
  next
    case False
    then have "digits58_le (n div 58) \<noteq> []" by (subst digits58_le.simps) simp
    with "1.IH" [OF "1.prems" False] unfold show ?thesis by simp
  qed
qed


lemma SetBytes_Cons: "SetBytes (x # xs) = unat x * 256 ^ length xs + SetBytes xs"
  using SetBytes_append [of "[x]" xs] by (simp add: SetBytes_def)

lemma SetBytes_pos: "x \<noteq> 0 \<Longrightarrow> 0 < SetBytes (x # xs)"
  by (simp add: SetBytes_Cons unat_gt_0)

lemma Bytes_snoc:
  assumes "m * 256 + unat x \<noteq> 0"
  shows "Bytes (m * 256 + unat x) = Bytes m @ [x]"
proof -
  have lt: "unat x < 256" using unsigned_less [of x, where ?'a = nat] by simp
  then have "(m * 256 + unat x) mod 256 = unat x" "(m * 256 + unat x) div 256 = m"
    by simp_all
  with assms have "bytes_le (m * 256 + unat x) = of_nat (unat x) # bytes_le m"
    by (subst bytes_le.simps) simp
  then show ?thesis by (simp add: Bytes_def)
qed

lemma Bytes_SetBytes:
  "bs = [] \<or> hd bs \<noteq> 0 \<Longrightarrow> Bytes (SetBytes bs) = bs"
proof (induction bs rule: rev_induct)
  case Nil
  show ?case by (simp add: SetBytes_def Bytes_def bytes_le.simps)
next
  case (snoc x xs)
  have val: "SetBytes (xs @ [x]) = SetBytes xs * 256 + unat x"
    by (simp add: SetBytes_def)
  show ?case
  proof (cases xs)
    case Nil
    with snoc.prems have "x \<noteq> 0" by simp
    then have "unat x \<noteq> 0" using unat_gt_0 [of x] by simp
    with Bytes_snoc [of 0 x] Nil show ?thesis
      by (simp add: SetBytes_def Bytes_def bytes_le.simps)
  next
    case (Cons y ys)
    with snoc.prems have y: "y \<noteq> 0" by simp
    then have "0 < SetBytes xs" using Cons SetBytes_pos by simp
    then have "SetBytes xs * 256 + unat x \<noteq> 0" by simp
    from Bytes_snoc [OF this] snoc.IH y Cons val show ?thesis by simp
  qed
qed

lemma takeWhile_dropWhile_zero:
  "replicate (length (takeWhile (\<lambda>x. x = 0) bs)) 0 @ dropWhile (\<lambda>x. x = 0) bs = bs"
  by (induction bs) simp_all

lemma dropWhile_canonical:
  "dropWhile (\<lambda>x. x = (0::byte)) bs = [] \<or> hd (dropWhile (\<lambda>x. x = 0) bs) \<noteq> 0"
  using hd_dropWhile [of "\<lambda>x. x = (0::byte)" bs] by blast

lemma SetBytes_dropWhile: "SetBytes (dropWhile (\<lambda>x. x = 0) bs) = SetBytes bs"
proof -
  have "SetBytes bs = SetBytes (replicate (length (takeWhile (\<lambda>x. x = 0) bs)) 0
                                 @ dropWhile (\<lambda>x. x = 0) bs)"
    by (simp only: takeWhile_dropWhile_zero)
  then show ?thesis by (simp only: SetBytes_padded)
qed

lemma leading_zero_bytes_restored:
  "replicate (length (takeWhile (\<lambda>x. x = 0) bs)) 0 @ Bytes (SetBytes bs) = bs"
proof -
  have "Bytes (SetBytes bs) = dropWhile (\<lambda>x. x = 0) bs"
    using Bytes_SetBytes [OF dropWhile_canonical [of bs]] by (simp add: SetBytes_dropWhile)
  then show ?thesis by (simp add: takeWhile_dropWhile_zero)
qed


lemma b58_index_one: "b58_index b58_alphabet (CHR ''1'') = 0"
  by (simp add: b58_alphabet_def)

lemma b58_digit_char:
  assumes "d < 58"
  shows "b58_alphabet ! d \<in> set b58_alphabet"
    and "b58_index b58_alphabet (b58_alphabet ! d) = d"
    and "(b58_alphabet ! d = CHR ''1'') = (d = 0)"
proof -
  from assms have len: "d < length b58_alphabet" by (simp add: length_b58_alphabet)
  then show "b58_alphabet ! d \<in> set b58_alphabet" by simp
  from len show "b58_index b58_alphabet (b58_alphabet ! d) = d"
    by (rule b58_index_nth [OF distinct_b58_alphabet])
  have "(b58_alphabet ! d = b58_alphabet ! 0) = (d = 0)"
    using len by (simp add: nth_eq_iff_index_eq [OF distinct_b58_alphabet] length_b58_alphabet)
  then show "(b58_alphabet ! d = CHR ''1'') = (d = 0)" by (simp add: b58_alphabet_0)
qed

lemma foldl_ones:
  "foldl (\<lambda>a ch. a * 58 + b58_index b58_alphabet ch) 0 (replicate z (CHR ''1'')) = 0"
  by (induction z) (simp_all add: b58_index_one)

lemma foldl_digit_chars:
  "\<forall>d \<in> set ds. d < 58 \<Longrightarrow>
   foldl (\<lambda>a ch. a * 58 + b58_index b58_alphabet ch) a (map (\<lambda>d. b58_alphabet ! d) ds)
   = foldl (\<lambda>a d. a * 58 + d) a ds"
  by (induction ds arbitrary: a) (simp_all add: b58_digit_char(2))

lemma spec_base58_roundtrip: "spec_base58_Decode (spec_base58_Encode b) = Inr b"
proof -
  define n where "n = SetBytes b"
  define z where "z = length (takeWhile (\<lambda>x. x = 0) b)"
  define ds where "ds = rev (digits58_le n)"
  define s where "s = replicate z (CHR ''1'') @ map (\<lambda>d. b58_alphabet ! d) ds"
  have enc: "spec_base58_Encode b = s"
    by (simp add: spec_base58_Encode_def s_def ds_def n_def z_def)
  have bound: "\<forall>d \<in> set ds. d < 58"
    by (simp add: ds_def digits58_le_bound)
  have one: "CHR ''1'' \<in> set b58_alphabet"
    using b58_digit_char(1) [of 0] by (simp add: b58_alphabet_0)
  have chars: "\<not> list_ex (\<lambda>ch. ch \<notin> set b58_alphabet) s"
    using bound one by (auto simp: list_ex_iff s_def b58_digit_char(1))
  have msd: "ds = [] \<or> hd ds \<noteq> 0"
  proof (cases "n = 0")
    case True
    then show ?thesis by (simp add: ds_def digits58_le.simps)
  next
    case False
    then have "digits58_le n \<noteq> []" by (subst digits58_le.simps) simp
    with digits58_le_last [OF False] show ?thesis by (simp add: ds_def hd_rev)
  qed
  have "takeWhile (\<lambda>ch. ch = CHR ''1'') (map (\<lambda>d. b58_alphabet ! d) ds) = []"
  proof (cases ds)
    case Nil
    then show ?thesis by simp
  next
    case (Cons d ds')
    with msd bound have "d \<noteq> 0" "d < 58" by simp_all
    then have "b58_alphabet ! d \<noteq> CHR ''1''" by (simp add: b58_digit_char(3))
    with Cons show ?thesis by simp
  qed
  then have ones: "takeWhile (\<lambda>ch. ch = CHR ''1'') s = replicate z (CHR ''1'')"
    unfolding s_def by (induction z) simp_all
  have "foldl (\<lambda>a ch. a * 58 + b58_index b58_alphabet ch) 0 s
        = foldl (\<lambda>a d. a * 58 + d) 0 ds"
    by (simp add: s_def foldl_ones foldl_digit_chars [OF bound])
  also have "\<dots> = n" by (simp add: ds_def digits58_le_value)
  finally have val: "foldl (\<lambda>a ch. a * 58 + b58_index b58_alphabet ch) 0 s = n" .
  have "spec_base58_Decode s = Inr (replicate z 0 @ Bytes n)"
    using chars by (simp add: spec_base58_Decode_def ones val)
  also have "replicate z 0 @ Bytes n = b"
    unfolding z_def n_def by (rule leading_zero_bytes_restored)
  finally show ?thesis by (simp add: enc)
qed

section \<open>Evaluations on the test instance\<close>

lemma test_codec_roundtrip:
  "base58_Decode test_collaborators (base58_Encode test_collaborators b) = Inr b"
  by (simp add: test_collaborators_def spec_base58_roundtrip)

lemma test_key_7:
  "NewPrivateKey test_collaborators [7] test_params =
     \<lparr>btcec_PrivateKey = \<lparr>ecdsa_D = 7, ecdsa_PublicKey = 7\<rparr>,
      PublicKey = \<lparr>btcec_PublicKey = 7, isCompressed = True, param = test_params\<rparr>\<rparr>"
  by (simp add: NewPrivateKey_def PrivKeyFromBytes_def SetBytes_def test_collaborators_def
      secp256k1_N_def)

lemma decode_DwS: "base58_Decode test_collaborators ''DwS'' = Inr [0xAA, 5]"
  by (simp add: test_collaborators_def spec_base58_Decode_def b58_alphabet_def Bytes_def
      bytes_le.simps)

lemma decode_2: "base58_Decode test_collaborators ''2'' = Inr [1]"
  by (simp add: test_collaborators_def spec_base58_Decode_def b58_alphabet_def Bytes_def
      bytes_le.simps)

lemma decode_empty: "base58_Decode test_collaborators '''' = Inr []"
  by (simp add: test_collaborators_def spec_base58_Decode_def Bytes_def bytes_le.simps)

lemma decode_bad: "base58_Decode test_collaborators ''0'' = Inl (Err ''InvalidBase58Character'')"
  by (simp add: test_collaborators_def spec_base58_Decode_def b58_alphabet_def)



lemma test_sha256_abc:
  "sha256_digest test_collaborators (map of_char ''abc'') = [0x61, 0x62, 0x63] @ replicate 29 0"
  by (simp add: test_collaborators_def)

lemma test_sha256_e_acute:
  "sha256_digest test_collaborators (map of_char [CHR 0xC3, CHR 0xA9])
     = [0xC3, 0xA9] @ replicate 30 0"
  by (simp add: test_collaborators_def)

section \<open>The claims\<close>

text \<open>
  C1. WIF round trip. Let the codec decode what it encoded (the spec's property of the
  base58 codec, for 1 to 64 bytes), let \<open>k\<close> be a private key with a valid scalar, and
  let the header that \<open>WIFAddress\<close> writes, the first of \<open>k\<close>'s
  \<open>DumpedPrivateKeyHeader\<close>, be among the headers of the parameters given to
  \<open>FromWIF\<close>. Then \<open>FromWIF\<close> of the exported string returns a key with the same scalar
  and the same \<open>isCompressed\<close> flag, compressed or not.
\<close>

theorem C1_wif_roundtrip:
  assumes codec: "\<And>b. 1 \<le> length b \<Longrightarrow> length b \<le> 64 \<Longrightarrow>
                    base58_Decode c (base58_Encode c b) = Inr b"
    and valid: "valid_scalar (ecdsa_D (btcec_PrivateKey k))"
    and hdr: "DumpedPrivateKeyHeader (param (PublicKey k)) \<noteq> []"
    and cand: "hd (DumpedPrivateKeyHeader (param (PublicKey k)))
                 \<in> set (DumpedPrivateKeyHeader prm)"
  shows "\<exists>wif k'. WIFAddress c k = Inr wif \<and> FromWIF c wif prm = Inr k'
           \<and> ecdsa_D (btcec_PrivateKey k') = ecdsa_D (btcec_PrivateKey k)
           \<and> isCompressed (PublicKey k') = isCompressed (PublicKey k)"
proof -
  define ser where "ser = btcec_Serialize (btcec_PrivateKey k)"
  define flag where "flag = (if isCompressed (PublicKey k) then [1::byte] else [])"
  from hdr obtain h hs where hs: "DumpedPrivateKeyHeader (param (PublicKey k)) = h # hs"
    by (cases "DumpedPrivateKeyHeader (param (PublicKey k))") auto
  from valid have "ecdsa_D (btcec_PrivateKey k) < 256 ^ 32"
    using secp256k1_N_less by (simp add: valid_scalar_def)
  then have len: "length ser = 32"
    unfolding ser_def by (rule btcec_Serialize_length)
  have val: "SetBytes ser = ecdsa_D (btcec_PrivateKey k)"
    unfolding ser_def by (rule SetBytes_btcec_Serialize)
  have wif: "WIFAddress c k = Inr (base58_Encode c (h # ser @ flag))"
    unfolding ser_def flag_def by (rule WIFAddress_eq [OF hs])
  have "1 \<le> length (h # ser @ flag)" "length (h # ser @ flag) \<le> 64"
    using len by (simp_all add: flag_def)
  then have dec: "base58_Decode c (base58_Encode c (h # ser @ flag)) = Inr (h # ser @ flag)"
    by (rule codec)
  from cand hs have mem: "h \<in> set (DumpedPrivateKeyHeader prm)" by simp
  show ?thesis
  proof (cases "isCompressed (PublicKey k)")
    case True
    then have "flag = [1]" by (simp add: flag_def)
    with len have "length (ser @ flag) = 33" "(ser @ flag) ! 32 = 1" "take 32 (ser @ flag) = ser"
      by (simp_all add: nth_append)
    with FromWIF_decoded [OF dec, of prm] mem val True wif show ?thesis by simp
  next
    case False
    then have "flag = []" by (simp add: flag_def)
    with len have "length (ser @ flag) \<noteq> 33" "ser @ flag = ser" by simp_all
    with FromWIF_decoded [OF dec, of prm] mem val False wif show ?thesis by simp
  qed
qed

theorem C1_wif_roundtrip_witness:
  "valid_scalar (ecdsa_D (btcec_PrivateKey (NewPrivateKey test_collaborators [7] test_params)))
   \<and> (\<exists>wif k'. WIFAddress test_collaborators (NewPrivateKey test_collaborators [7] test_params)
                  = Inr wif
        \<and> FromWIF test_collaborators wif test_params = Inr k'
        \<and> ecdsa_D (btcec_PrivateKey k') = 7 \<and> isCompressed (PublicKey k') = True)
   \<and> (\<exists>wif k'. WIFAddress test_collaborators
                   \<lparr>btcec_PrivateKey = \<lparr>ecdsa_D = 7, ecdsa_PublicKey = 7\<rparr>,
                    PublicKey = \<lparr>btcec_PublicKey = 7, isCompressed = False,
                                 param = test_params\<rparr>\<rparr>
                  = Inr wif
        \<and> FromWIF test_collaborators wif test_params = Inr k'
        \<and> ecdsa_D (btcec_PrivateKey k') = 7 \<and> isCompressed (PublicKey k') = False)"
proof -
  let ?u = "\<lparr>btcec_PrivateKey = \<lparr>ecdsa_D = 7, ecdsa_PublicKey = 7::nat\<rparr>,
             PublicKey = \<lparr>btcec_PublicKey = 7, isCompressed = False, param = test_params\<rparr>\<rparr>"
  have v: "valid_scalar 7" by (simp add: valid_scalar_def secp256k1_N_def)
  have h: "DumpedPrivateKeyHeader test_params \<noteq> []"
    "hd (DumpedPrivateKeyHeader test_params) \<in> set (DumpedPrivateKeyHeader test_params)"
    by (simp_all add: test_params_def)
  have a: "\<exists>wif k'. WIFAddress test_collaborators
                       (NewPrivateKey test_collaborators [7] test_params) = Inr wif
        \<and> FromWIF test_collaborators wif test_params = Inr k'
        \<and> ecdsa_D (btcec_PrivateKey k') = 7 \<and> isCompressed (PublicKey k') = True"
    using C1_wif_roundtrip [of test_collaborators
        "NewPrivateKey test_collaborators [7] test_params" test_params] v h
    by (simp add: test_codec_roundtrip test_key_7)
  have b: "\<exists>wif k'. WIFAddress test_collaborators ?u = Inr wif
        \<and> FromWIF test_collaborators wif test_params = Inr k'
        \<and> ecdsa_D (btcec_PrivateKey k') = 7 \<and> isCompressed (PublicKey k') = False"
    using C1_wif_roundtrip [of test_collaborators ?u test_params] v h
    by (simp add: test_codec_roundtrip)
  from v a b show ?thesis by (simp add: test_key_7)
qed

text \<open>
  C2. The encode step (append a \<open>0x00\<close> placeholder, shift the payload right by one
  position with \<open>copy\<close>, overwrite position 0 with the header) yields exactly
  \<open>header # payload\<close>, of length \<open>len(payload) + 1\<close>, for every header and every
  payload (the empty one included), and that sequence is what each of the three sites
  hands to \<open>base58.Encode\<close>: the public-key address, the redeem-script address, and
  the WIF export (which first reads \<open>DumpedPrivateKeyHeader[0]\<close>, so the list must not
  be empty).
\<close>

theorem C2_header_prepended:
  "(case copy_shift (p @ [0]) of
      Inl e \<Rightarrow> Inl e
    | Inr q \<Rightarrow> store_go q 0 h) = Inr (h # p)
   \<and> length (h # p) = length p + 1
   \<and> PublicKey_Address c pub =
       Inr (base58_Encode c (AddressHeader (param pub) # PublicKey_AddressBytes c pub))
   \<and> Address c redeem header = Inr (base58_Encode c (header # AddressBytes c redeem))
   \<and> (DumpedPrivateKeyHeader (param (PublicKey priv)) \<noteq> [] \<longrightarrow>
        WIFAddress c priv =
          Inr (base58_Encode c
                (hd (DumpedPrivateKeyHeader (param (PublicKey priv)))
                 # (btcec_Serialize (btcec_PrivateKey priv)
                    @ (if isCompressed (PublicKey priv) then [1] else [])))))"
proof -
  have step: "(case copy_shift (p @ [0]) of Inl e \<Rightarrow> Inl e | Inr q \<Rightarrow> store_go q 0 h)
              = Inr (h # p)"
    by (simp add: copy_shift_snoc store_go_def)
  have wif: "DumpedPrivateKeyHeader (param (PublicKey priv)) \<noteq> [] \<longrightarrow>
        WIFAddress c priv =
          Inr (base58_Encode c
                (hd (DumpedPrivateKeyHeader (param (PublicKey priv)))
                 # (btcec_Serialize (btcec_PrivateKey priv)
                    @ (if isCompressed (PublicKey priv) then [1] else []))))"
    by (cases "DumpedPrivateKeyHeader (param (PublicKey priv))")
       (simp_all add: WIFAddress_eq)
  show ?thesis
    using step wif PublicKey_Address_eq [of c pub] Address_eq [of c redeem header]
    by simp
qed

theorem C2_header_prepended_witness:
  "DumpedPrivateKeyHeader (param (PublicKey (NewPrivateKey test_collaborators [7] test_params))) \<noteq> []
   \<and> WIFAddress test_collaborators (NewPrivateKey test_collaborators [7] test_params)
       = Inr (spec_base58_Encode (0xAA # replicate 31 0 @ [7, 1]))"
proof -
  let ?k = "NewPrivateKey test_collaborators [7] test_params"
  have hs: "DumpedPrivateKeyHeader (param (PublicKey ?k)) \<noteq> []"
    unfolding test_key_7 by (simp add: test_params_def)
  have buf: "hd (DumpedPrivateKeyHeader (param (PublicKey ?k)))
                # (btcec_Serialize (btcec_PrivateKey ?k)
                   @ (if isCompressed (PublicKey ?k) then [1] else []))
             = 0xAA # replicate 31 0 @ [7, 1]"
    unfolding test_key_7
    by (simp add: test_params_def btcec_Serialize_def paddedAppend_def
        PrivKeyBytesLen_def Bytes_def bytes_le.simps)
  from C2_header_prepended [of _ _ test_collaborators _ _ _ ?k] hs
  have "WIFAddress test_collaborators ?k =
          Inr (base58_Encode test_collaborators
                (hd (DumpedPrivateKeyHeader (param (PublicKey ?k)))
                 # (btcec_Serialize (btcec_PrivateKey ?k)
                    @ (if isCompressed (PublicKey ?k) then [1] else []))))"
    by blast
  with hs show ?thesis
    by (simp only: buf) (simp add: test_collaborators_def)
qed

text \<open>
  C3 as stated fails: \<open>DecodeAddress\<close> has no length check. The string \<open>2\<close>
  decodes to the single byte \<open>0x01\<close>, not to 21 bytes, and \<open>DecodeAddress\<close> returns
  the empty digest instead of an error.
\<close>

theorem C3_counterexample:
  "base58_Decode test_collaborators ''2'' = Inr [1]
   \<and> length [1 :: byte] \<noteq> 21
   \<and> DecodeAddress test_collaborators ''2'' = Inr []"
  using DecodeAddress_decoded [OF decode_2] by (simp add: decode_2)

text \<open>
  C3, amended. When base58 decoding fails, \<open>DecodeAddress\<close> returns that error. When
  it yields a non-empty sequence, \<open>DecodeAddress\<close> returns it without its first byte,
  whatever its length; in particular 21 decoded bytes give the 20 digest bytes.
\<close>

theorem C3_DecodeAddress_strips_header:
  "(base58_Decode c addr = Inl e \<longrightarrow> DecodeAddress c addr = Inl e)
   \<and> (base58_Decode c addr = Inr pb \<and> pb \<noteq> [] \<longrightarrow> DecodeAddress c addr = Inr (tl pb))
   \<and> (base58_Decode c addr = Inr pb \<and> length pb = 21 \<longrightarrow>
        DecodeAddress c addr = Inr (tl pb) \<and> length (tl pb) = 20)"
proof -
  have "base58_Decode c addr = Inl e \<longrightarrow> DecodeAddress c addr = Inl e"
    by (simp add: DecodeAddress_def)
  moreover have "base58_Decode c addr = Inr pb \<and> pb \<noteq> [] \<longrightarrow>
      DecodeAddress c addr = Inr (tl pb)"
    by (simp add: DecodeAddress_decoded)
  moreover have "base58_Decode c addr = Inr pb \<and> length pb = 21 \<longrightarrow>
      DecodeAddress c addr = Inr (tl pb) \<and> length (tl pb) = 20"
    by (auto simp: DecodeAddress_decoded)
  ultimately show ?thesis by blast
qed

theorem C3_DecodeAddress_strips_header_witness:
  "DecodeAddress test_collaborators ''0'' = Inl (Err ''InvalidBase58Character'')
   \<and> DecodeAddress test_collaborators ''DwS'' = Inr [5]
   \<and> DecodeAddress test_collaborators (spec_base58_Encode (0x17 # replicate 20 9))
       = Inr (replicate 20 9)
   \<and> length (replicate 20 (9 :: byte)) = 20"
proof -
  have d: "base58_Decode test_collaborators (spec_base58_Encode (0x17 # replicate 20 9))
           = Inr (0x17 # replicate 20 9)"
    using test_codec_roundtrip [of "0x17 # replicate 20 9"]
    by (simp add: test_collaborators_def)
  from C3_DecodeAddress_strips_header
         [of test_collaborators "''0''" "Err ''InvalidBase58Character''" "[]"]
       C3_DecodeAddress_strips_header
         [of test_collaborators "''DwS''" _ "[0xAA, 5]"]
       C3_DecodeAddress_strips_header
         [of test_collaborators "spec_base58_Encode (0x17 # replicate 20 9)" _
             "0x17 # replicate 20 9"]
       decode_bad decode_DwS d
  show ?thesis by simp
qed

text \<open>
  C4 as stated fails: \<open>FromWIF\<close> has no length check either. The string \<open>DwS\<close>
  decodes to the two bytes \<open>0xAA 0x05\<close>; with \<open>0xAA\<close> a recognized header,
  \<open>FromWIF\<close> returns the uncompressed key of scalar 5.
\<close>

theorem C4_counterexample:
  "base58_Decode test_collaborators ''DwS'' = Inr [0xAA, 5]
   \<and> length [0xAA, 5 :: byte] \<noteq> 33 \<and> length [0xAA, 5 :: byte] \<noteq> 34
   \<and> FromWIF test_collaborators ''DwS'' test_params =
       Inr \<lparr>btcec_PrivateKey = \<lparr>ecdsa_D = 5, ecdsa_PublicKey = 5\<rparr>,
            PublicKey = \<lparr>btcec_PublicKey = 5, isCompressed = False, param = test_params\<rparr>\<rparr>"
proof -
  have "FromWIF test_collaborators ''DwS'' test_params =
       Inr \<lparr>btcec_PrivateKey = \<lparr>ecdsa_D = 5, ecdsa_PublicKey = 5\<rparr>,
            PublicKey = \<lparr>btcec_PublicKey = 5, isCompressed = False, param = test_params\<rparr>\<rparr>"
    unfolding FromWIF_decoded [OF decode_DwS]
    by (simp add: test_params_def SetBytes_def test_collaborators_def secp256k1_N_def)
  then show ?thesis by (simp add: decode_DwS)
qed

text \<open>
  C4, amended. For a decoded sequence with a recognized header byte: 34 bytes ending
  in \<open>0x01\<close> give a compressed key whose scalar is read from bytes 1 to 32 (the flag is
  stripped); 33 bytes give an uncompressed key; and every other sequence (any other
  length, or 34 bytes with another last byte) also gives an uncompressed key, whose
  scalar is the big-endian value of all the bytes after the header.
\<close>

theorem C4_FromWIF_lengths:
  assumes "base58_Decode c wif = Inr pb" and "pb \<noteq> []"
    and "hd pb \<in> set (DumpedPrivateKeyHeader prm)"
  shows "(length pb = 34 \<and> pb ! 33 = 1 \<longrightarrow>
            (\<exists>k. FromWIF c wif prm = Inr k \<and> isCompressed (PublicKey k)
                 \<and> ecdsa_D (btcec_PrivateKey k) = SetBytes (take 32 (tl pb))))
       \<and> (length pb = 33 \<longrightarrow>
            (\<exists>k. FromWIF c wif prm = Inr k \<and> \<not> isCompressed (PublicKey k)
                 \<and> ecdsa_D (btcec_PrivateKey k) = SetBytes (tl pb)))
       \<and> (\<not> (length pb = 34 \<and> pb ! 33 = 1) \<longrightarrow>
            (\<exists>k. FromWIF c wif prm = Inr k \<and> \<not> isCompressed (PublicKey k)
                 \<and> ecdsa_D (btcec_PrivateKey k) = SetBytes (tl pb)))"
proof -
  from assms(2) obtain b bs where pb: "pb = b # bs" by (cases pb) auto
  with assms have dec: "base58_Decode c wif = Inr (b # bs)"
    and mem: "b \<in> set (DumpedPrivateKeyHeader prm)" by simp_all
  show ?thesis
    unfolding FromWIF_decoded [OF dec] using mem by (auto simp: pb)
qed

theorem C4_FromWIF_lengths_witness:
  "(\<exists>k. FromWIF test_collaborators (spec_base58_Encode (0xAA # replicate 31 0 @ [7, 1]))
           test_params = Inr k
        \<and> isCompressed (PublicKey k) \<and> ecdsa_D (btcec_PrivateKey k) = 7)
   \<and> (\<exists>k. FromWIF test_collaborators (spec_base58_Encode (0xAA # replicate 31 0 @ [7]))
           test_params = Inr k
        \<and> \<not> isCompressed (PublicKey k) \<and> ecdsa_D (btcec_PrivateKey k) = 7)
   \<and> (\<exists>k. FromWIF test_collaborators ''DwS'' test_params = Inr k
        \<and> \<not> isCompressed (PublicKey k) \<and> ecdsa_D (btcec_PrivateKey k) = 5)"
proof -
  let ?long = "0xAA # replicate 31 0 @ [7, 1 :: byte]"
  let ?short = "0xAA # replicate 31 0 @ [7 :: byte]"
  have dl: "base58_Decode test_collaborators (spec_base58_Encode ?long) = Inr ?long"
    using test_codec_roundtrip [of ?long] by (simp add: test_collaborators_def)
  have ds: "base58_Decode test_collaborators (spec_base58_Encode ?short) = Inr ?short"
    using test_codec_roundtrip [of ?short] by (simp add: test_collaborators_def)
  have v: "SetBytes (replicate 31 0 @ [7]) = 7" "SetBytes [5] = 5"
    by (simp_all add: SetBytes_padded) (simp_all add: SetBytes_def)
  have a: "\<exists>k. FromWIF test_collaborators (spec_base58_Encode ?long) test_params = Inr k
        \<and> isCompressed (PublicKey k) \<and> ecdsa_D (btcec_PrivateKey k) = 7"
    using C4_FromWIF_lengths [OF dl, of test_params] v
    by (simp add: test_params_def nth_append)
  have b: "\<exists>k. FromWIF test_collaborators (spec_base58_Encode ?short) test_params = Inr k
        \<and> \<not> isCompressed (PublicKey k) \<and> ecdsa_D (btcec_PrivateKey k) = 7"
    using C4_FromWIF_lengths [OF ds, of test_params] v
    by (simp add: test_params_def)
  have c: "\<exists>k. FromWIF test_collaborators ''DwS'' test_params = Inr k
        \<and> \<not> isCompressed (PublicKey k) \<and> ecdsa_D (btcec_PrivateKey k) = 5"
    using C4_FromWIF_lengths [OF decode_DwS, of test_params] v
    by (simp add: test_params_def)
  from a b c show ?thesis by blast
qed

text \<open>
  C5. Both address digests are the 160-bit digest applied directly to the input: to the
  serialized public key in the method, to the script in the function. The two paths
  are the same pipeline, and neither depends on the 256-bit digest, whichever function
  that is.
\<close>

theorem C5_single_hash:
  "PublicKey_AddressBytes c pub = ripemd160_digest c (Serialize c pub)
   \<and> AddressBytes c redeem = ripemd160_digest c redeem
   \<and> PublicKey_AddressBytes c pub = AddressBytes c (Serialize c pub)
   \<and> PublicKey_AddressBytes (c\<lparr>sha256_digest := f\<rparr>) pub = PublicKey_AddressBytes c pub
   \<and> AddressBytes (c\<lparr>sha256_digest := f\<rparr>) redeem = AddressBytes c redeem"
  by (simp add: PublicKey_AddressBytes_def AddressBytes_def Serialize_def hash_New_def
      hash_Write_def hash_Sum_def)

text \<open>
  C6 as stated fails: \<open>NewPrivateKey\<close> has no error result and validates nothing. On
  32 zero bytes it returns the key of scalar 0, and on 32 bytes \<open>0xFF\<close> the key of
  scalar \<open>2^256 - 1\<close>, above the curve order.
\<close>

theorem C6_counterexample:
  "length (replicate 32 (0 :: byte)) = 32
   \<and> \<not> valid_scalar (SetBytes (replicate 32 0))
   \<and> NewPrivateKey test_collaborators (replicate 32 0) test_params =
       \<lparr>btcec_PrivateKey = \<lparr>ecdsa_D = 0, ecdsa_PublicKey = 0\<rparr>,
        PublicKey = \<lparr>btcec_PublicKey = 0, isCompressed = True, param = test_params\<rparr>\<rparr>
   \<and> \<not> valid_scalar (SetBytes bytes_all_FF)
   \<and> ecdsa_D (btcec_PrivateKey (NewPrivateKey test_collaborators bytes_all_FF test_params))
       = 2 ^ 256 - 1"
proof -
  have zero: "NewPrivateKey test_collaborators (replicate 32 0) test_params =
       \<lparr>btcec_PrivateKey = \<lparr>ecdsa_D = 0, ecdsa_PublicKey = 0\<rparr>,
        PublicKey = \<lparr>btcec_PublicKey = 0, isCompressed = True, param = test_params\<rparr>\<rparr>"
    by (simp add: SetBytes_replicate_0 NewPrivateKey_def PrivKeyFromBytes_def
        test_collaborators_def)
  have ff: "SetBytes bytes_all_FF = 2 ^ 256 - 1"
    by (simp add: bytes_all_FF_def SetBytes_def)
  have big: "\<not> valid_scalar (2 ^ 256 - 1)"
    by (simp add: valid_scalar_def secp256k1_N_def)
  have "ecdsa_D (btcec_PrivateKey (NewPrivateKey test_collaborators bytes_all_FF test_params))
        = SetBytes bytes_all_FF"
    by (simp add: NewPrivateKey_def PrivKeyFromBytes_def)
  with zero ff big show ?thesis
    by (simp add: SetBytes_replicate_0 valid_scalar_def)
qed

text \<open>
  C6, amended. For every input (of 32 bytes or not) \<open>NewPrivateKey\<close> returns the key
  whose scalar is the big-endian value of the bytes and whose point is that scalar
  times the generator, with \<open>isCompressed\<close> set.
\<close>

theorem C6_NewPrivateKey_unchecked:
  "NewPrivateKey c pb prm =
     \<lparr>btcec_PrivateKey =
        \<lparr>ecdsa_D = SetBytes pb, ecdsa_PublicKey = ScalarBaseMult c (SetBytes pb)\<rparr>,
      PublicKey =
        \<lparr>btcec_PublicKey = ScalarBaseMult c (SetBytes pb), isCompressed = True,
         param = prm\<rparr>\<rparr>"
  by (simp add: NewPrivateKey_def PrivKeyFromBytes_def)

text \<open>
  C7. When the decoded sequence is not empty, \<open>FromWIF\<close> returns the error
  \<open>wif is invalid\<close> (the spec's \<open>UnrecognizedHeader\<close>) if its first byte is none of
  \<open>DumpedPrivateKeyHeader\<close>, and returns a key if it is one of them.
\<close>

theorem C7_header_check:
  assumes "base58_Decode c wif = Inr pb" and "pb \<noteq> []"
  shows "(hd pb \<notin> set (DumpedPrivateKeyHeader prm) \<longrightarrow>
            FromWIF c wif prm = Inl (Err ''wif is invalid''))
       \<and> (hd pb \<in> set (DumpedPrivateKeyHeader prm) \<longrightarrow> (\<exists>k. FromWIF c wif prm = Inr k))"
proof -
  from assms(2) obtain b bs where pb: "pb = b # bs" by (cases pb) auto
  with assms(1) have dec: "base58_Decode c wif = Inr (b # bs)" by simp
  show ?thesis
    unfolding FromWIF_decoded [OF dec] by (simp add: pb Let_def split: prod.split)
qed

theorem C7_header_check_witness:
  "FromWIF test_collaborators ''DwS'' (test_params\<lparr>DumpedPrivateKeyHeader := [0x80]\<rparr>)
     = Inl (Err ''wif is invalid'')
   \<and> (\<exists>k. FromWIF test_collaborators ''DwS'' test_params = Inr k)"
  using C7_header_check [OF decode_DwS, of "test_params\<lparr>DumpedPrivateKeyHeader := [0x80]\<rparr>"]
    C7_header_check [OF decode_DwS, of test_params]
  by (simp add: test_params_def)




text \<open>
  C9. The scalar of \<open>NewPrivateKeyFromPassword\<close> is the big-endian value of the
  256-bit digest of the bytes of the password (for a text, the bytes of its UTF-8
  form: \<open>abc\<close> is \<open>61 62 63\<close>, and e with an acute accent is \<open>C3 A9\<close>), with nothing
  in between: the key is that of \<open>NewPrivateKey\<close> on the digest. Two calls with the same
  password return the same scalar whatever parameters they are given, and the same
  derived address when the parameters have the same \<open>AddressHeader\<close>; no entropy
  enters.
\<close>

theorem C9_password_scalar:
  "ecdsa_D (btcec_PrivateKey (NewPrivateKeyFromPassword c password prm))
     = SetBytes (sha256_digest c (map of_char password))
   \<and> NewPrivateKeyFromPassword c password prm
     = NewPrivateKey c (sha256_digest c (map of_char password)) prm
   \<and> PublicKey_Address c (PublicKey (NewPrivateKeyFromPassword c password prm))
     = Inr (base58_Encode c
             (AddressHeader prm
              # ripemd160_digest c
                  (SerializeCompressed c
                    (ScalarBaseMult c (SetBytes (sha256_digest c (map of_char password)))))))
   \<and> (\<forall>prm'. ecdsa_D (btcec_PrivateKey (NewPrivateKeyFromPassword c password prm'))
                = ecdsa_D (btcec_PrivateKey (NewPrivateKeyFromPassword c password prm))
              \<and> (AddressHeader prm' = AddressHeader prm \<longrightarrow>
                   PublicKey_Address c (PublicKey (NewPrivateKeyFromPassword c password prm'))
                   = PublicKey_Address c (PublicKey (NewPrivateKeyFromPassword c password prm))))"
  by (simp add: NewPrivateKeyFromPassword_def NewPrivateKey_def PrivKeyFromBytes_def
      hash_New_def hash_Write_def hash_Sum_def PublicKey_Address_eq PublicKey_AddressBytes_def
      Serialize_def Let_def bytes_of_string_def)

theorem C9_password_scalar_witness:
  "ecdsa_D (btcec_PrivateKey (NewPrivateKeyFromPassword test_collaborators ''abc'' test_params))
     = 0x616263 * 256 ^ 29
   \<and> ecdsa_D (btcec_PrivateKey
               (NewPrivateKeyFromPassword test_collaborators [CHR 0xC3, CHR 0xA9] test_params))
     = 0xC3A9 * 256 ^ 30
   \<and> ecdsa_D (btcec_PrivateKey
               (NewPrivateKeyFromPassword test_collaborators ''abc''
                  (test_params\<lparr>DumpedPrivateKeyHeader := [0x80]\<rparr>)))
     = ecdsa_D (btcec_PrivateKey (NewPrivateKeyFromPassword test_collaborators ''abc'' test_params))
   \<and> PublicKey_Address test_collaborators
        (PublicKey (NewPrivateKeyFromPassword test_collaborators ''abc''
                      (test_params\<lparr>DumpedPrivateKeyHeader := [0x80]\<rparr>)))
     = PublicKey_Address test_collaborators
        (PublicKey (NewPrivateKeyFromPassword test_collaborators ''abc'' test_params))"
proof -
  have abc: "SetBytes ([0x61, 0x62, 0x63] @ replicate 29 0) = 0x616263 * 256 ^ 29"
    unfolding SetBytes_append SetBytes_replicate_0 by (simp add: SetBytes_def)
  have e: "SetBytes ([0xC3, 0xA9] @ replicate 30 0) = 0xC3A9 * 256 ^ 30"
    unfolding SetBytes_append SetBytes_replicate_0 by (simp add: SetBytes_def)
  have hdr: "AddressHeader (test_params\<lparr>DumpedPrivateKeyHeader := [0x80]\<rparr>)
             = AddressHeader test_params"
    by simp
  from C9_password_scalar [of test_collaborators "''abc''" test_params]
  have "ecdsa_D (btcec_PrivateKey (NewPrivateKeyFromPassword test_collaborators ''abc'' test_params))
     = SetBytes (sha256_digest test_collaborators (map of_char ''abc''))"
    by blast
  then have 1: "ecdsa_D (btcec_PrivateKey (NewPrivateKeyFromPassword test_collaborators ''abc'' test_params))
     = 0x616263 * 256 ^ 29"
    by (simp only: test_sha256_abc abc)
  from C9_password_scalar [of test_collaborators "[CHR 0xC3, CHR 0xA9]" test_params]
  have "ecdsa_D (btcec_PrivateKey
               (NewPrivateKeyFromPassword test_collaborators [CHR 0xC3, CHR 0xA9] test_params))
     = SetBytes (sha256_digest test_collaborators (map of_char [CHR 0xC3, CHR 0xA9]))"
    by blast
  then have 2: "ecdsa_D (btcec_PrivateKey
               (NewPrivateKeyFromPassword test_collaborators [CHR 0xC3, CHR 0xA9] test_params))
     = 0xC3A9 * 256 ^ 30"
    by (simp only: test_sha256_e_acute e)
  from C9_password_scalar [of test_collaborators "''abc''" test_params] hdr
  have 3: "ecdsa_D (btcec_PrivateKey
               (NewPrivateKeyFromPassword test_collaborators ''abc''
                  (test_params\<lparr>DumpedPrivateKeyHeader := [0x80]\<rparr>)))
     = ecdsa_D (btcec_PrivateKey (NewPrivateKeyFromPassword test_collaborators ''abc'' test_params))
   \<and> PublicKey_Address test_collaborators
        (PublicKey (NewPrivateKeyFromPassword test_collaborators ''abc''
                      (test_params\<lparr>DumpedPrivateKeyHeader := [0x80]\<rparr>)))
     = PublicKey_Address test_collaborators
        (PublicKey (NewPrivateKeyFromPassword test_collaborators ''abc'' test_params))"
    by blast
  from 1 2 3 show ?thesis by blast
qed

text \<open>
  C10. If base58 decoding returns the empty sequence and the parameters list at least
  one header, \<open>FromWIF\<close> reads \<open>pb[0]\<close> out of range and panics; nothing checks the
  length first. On a non-empty decoded sequence it cannot panic: it returns a key or
  the error \<open>wif is invalid\<close>.
\<close>

theorem C10_empty_decode_panics:
  "(base58_Decode c wif = Inr [] \<and> DumpedPrivateKeyHeader prm \<noteq> [] \<longrightarrow>
      FromWIF c wif prm = Inl PanicIndexOutOfRange)
   \<and> (base58_Decode c wif = Inr pb \<and> pb \<noteq> [] \<longrightarrow>
      (\<exists>k. FromWIF c wif prm = Inr k) \<or> FromWIF c wif prm = Inl (Err ''wif is invalid''))"
proof -
  have "FromWIF c wif prm = Inl PanicIndexOutOfRange"
    if "base58_Decode c wif = Inr []" "DumpedPrivateKeyHeader prm \<noteq> []"
    using that by (simp add: FromWIF_decoded_empty)
  moreover have "(\<exists>k. FromWIF c wif prm = Inr k) \<or> FromWIF c wif prm = Inl (Err ''wif is invalid'')"
    if "base58_Decode c wif = Inr pb" "pb \<noteq> []"
  proof -
    from that obtain b bs where "base58_Decode c wif = Inr (b # bs)" by (cases pb) auto
    then show ?thesis by (simp add: FromWIF_decoded Let_def split: prod.split)
  qed
  ultimately show ?thesis by blast
qed

theorem C10_empty_decode_panics_witness:
  "base58_Decode test_collaborators '''' = Inr []
   \<and> DumpedPrivateKeyHeader test_params \<noteq> []
   \<and> FromWIF test_collaborators '''' test_params = Inl PanicIndexOutOfRange
   \<and> ((\<exists>k. FromWIF test_collaborators ''DwS'' test_params = Inr k)
        \<or> FromWIF test_collaborators ''DwS'' test_params = Inl (Err ''wif is invalid''))"
proof -
  have h: "DumpedPrivateKeyHeader test_params \<noteq> []" by (simp add: test_params_def)
  from C10_empty_decode_panics [of test_collaborators "''''" test_params]
       C10_empty_decode_panics [of test_collaborators "''DwS''" _ "[0xAA, 5]"]
       decode_empty decode_DwS h
  show ?thesis by simp
qed

end
